theory Spec2Isabelle
  imports Complex_Main "HOL-Library.Sublist"
begin

section \<open>Wire values\<close>

text \<open>
  The server handlers are untyped: a handler receives whatever JSON value the client put
  on the wire and stores or forwards it without decoding. A payload is therefore a JSON
  value. An absent argument (JavaScript \<open>undefined\<close>) is represented by \<open>JNull\<close>: the
  server code can tell the two apart nowhere (both are falsy, both throw on a property
  read, both are serialised as \<open>null\<close> when emitted). Numbers are the reals; NaN cannot
  travel over the wire.
\<close>

datatype json =
    JNull
  | JBool bool
  | JNum real
  | JStr string
  | JArr "json list"
  | JObj "(string \<times> json) list"

text \<open>JavaScript's ToBoolean, as used by \<open>if (last)\<close>, \<open>if (item)\<close>, \<open>if (redo)\<close>.\<close>

fun truthy :: "json \<Rightarrow> bool" where
  "truthy JNull = False"
| "truthy (JBool b) = b"
| "truthy (JNum r) = (r \<noteq> 0)"
| "truthy (JStr s) = (s \<noteq> [])"
| "truthy (JArr xs) = True"
| "truthy (JObj kvs) = True"

datatype js_error = TypeError

text \<open>
  The property read \<open>v.k\<close> for a key \<open>k\<close> that is neither \<open>length\<close> nor an index (the
  server reads \<open>x\<close> and \<open>y\<close> only). \<open>None\<close> is \<open>undefined\<close>. When a parsed object
  repeats a key the last occurrence wins.
\<close>

fun js_get :: "json \<Rightarrow> string \<Rightarrow> js_error + json option" where
  "js_get JNull k = Inl TypeError"
| "js_get (JObj kvs) k = Inr (map_of (rev kvs) k)"
| "js_get v k = Inr None"

text \<open>
  An object literal as it is serialised for the wire: a field whose value is
  \<open>undefined\<close> is dropped.
\<close>

fun js_object :: "(string \<times> json option) list \<Rightarrow> json" where
  "js_object fs = JObj (List.map_filter (\<lambda>(k, v). map_option (Pair k) v) fs)"

section \<open>Emissions\<close>

text \<open>
  \<open>io.emit\<close> addresses every connection, \<open>socket.broadcast.emit\<close> every connection but
  the socket's own, \<open>socket.emit\<close> the socket's own connection only. An emission carries
  the event name and its arguments (none for \<open>undo:empty\<close> and \<open>redo:empty\<close>).
  Console output is not modelled.
\<close>

datatype audience = All | Others string | Only string

datatype emission = Emit audience string "json list"

fun receivers :: "string set \<Rightarrow> audience \<Rightarrow> string set" where
  "receivers conns All = conns"
| "receivers conns (Others sid) = conns - {sid}"
| "receivers conns (Only sid) = {sid}"

text \<open>A handler either runs to its end, having emitted a list of messages, or throws.\<close>

datatype outcome = Done "emission list" | Threw js_error

section \<open>Server state\<close>

record user =
  user_name :: string
  user_color :: string

record server =
  users :: "string \<rightharpoonup> user"
  globalHistory :: "json list"
  redoStack :: "json list"

text \<open>
  \<open>Array.prototype.push\<close> appends at the end; \<open>Array.prototype.pop\<close> removes the last
  element and returns it, or returns \<open>undefined\<close> and leaves the empty array as it is.
\<close>

definition push :: "json list \<Rightarrow> json \<Rightarrow> json list" where
  "push xs v = xs @ [v]"

definition pop :: "json list \<Rightarrow> json \<times> json list" where
  "pop xs = (if xs = [] then (JNull, []) else (last xs, butlast xs))"

section \<open>The server with history snapshots (unnamed/part_002)\<close>

text \<open>\<open>socket.on("draw:start")\<close> and \<open>socket.on("draw:move")\<close>, lines 54-55.\<close>

definition on_draw_start :: "string \<Rightarrow> json \<Rightarrow> server \<Rightarrow> outcome \<times> server" where
  "on_draw_start sid data s = (Done [Emit (Others sid) ''draw:start'' [data]], s)"

definition on_draw_move :: "string \<Rightarrow> json \<Rightarrow> server \<Rightarrow> outcome \<times> server" where
  "on_draw_move sid data s = (Done [Emit (Others sid) ''draw:move'' [data]], s)"

text \<open>\<open>socket.on("draw:end")\<close>, lines 57-66.\<close>

definition on_draw_end :: "string \<Rightarrow> json \<Rightarrow> server \<Rightarrow> outcome \<times> server" where
  "on_draw_end sid stroke s =
     (let h = push (globalHistory s) stroke;
          s' = s\<lparr>globalHistory := h, redoStack := []\<rparr>
      in (Done [Emit All ''draw:end'' [stroke], Emit All ''sync:history'' [JArr h]], s'))"

text \<open>
  \<open>socket.on("cursor:move")\<close>, lines 69-79. The user is looked up first; only then is
  \<open>pos\<close> read, which throws when \<open>pos\<close> is \<open>null\<close> or absent. Nothing in the file
  catches an exception that leaves a handler (there is no \<open>try\<close> and no
  \<open>uncaughtException\<close> listener), so the Node process ends and takes the state, which
  lives in its memory only, with it: the state after the handler is \<open>None\<close> then.
\<close>

definition on_cursor_move :: "string \<Rightarrow> json \<Rightarrow> server \<Rightarrow> outcome \<times> server option" where
  "on_cursor_move sid pos s =
     (case users s sid of
        None \<Rightarrow> (Done [], Some s)
      | Some u \<Rightarrow>
          (case js_get pos ''x'' of
             Inl e \<Rightarrow> (Threw e, None)
           | Inr x \<Rightarrow>
               (case js_get pos ''y'' of
                  Inl e \<Rightarrow> (Threw e, None)
                | Inr y \<Rightarrow>
                    (Done [Emit (Others sid) ''cursor:update''
                       [js_object [(''id'', Some (JStr sid)), (''name'', Some (JStr (user_name u))),
                          (''color'', Some (JStr (user_color u))), (''x'', x), (''y'', y)]]],
                     Some s))))"

text \<open>\<open>socket.on("undo")\<close>, lines 82-93.\<close>

definition on_undo :: "string \<Rightarrow> server \<Rightarrow> outcome \<times> server" where
  "on_undo sid s =
     (let (last, h) = pop (globalHistory s);
          s1 = s\<lparr>globalHistory := h\<rparr>
      in if truthy last
         then (let s2 = s1\<lparr>redoStack := push (redoStack s1) last\<rparr>
               in (Done [Emit All ''sync:history'' [JArr (globalHistory s2)]], s2))
         else (Done [Emit (Only sid) ''undo:empty'' []], s1))"

text \<open>\<open>socket.on("redo")\<close>, lines 95-104.\<close>

definition on_redo :: "string \<Rightarrow> server \<Rightarrow> outcome \<times> server" where
  "on_redo sid s =
     (let (item, r) = pop (redoStack s);
          s1 = s\<lparr>redoStack := r\<rparr>
      in if truthy item
         then (let s2 = s1\<lparr>globalHistory := push (globalHistory s1) item\<rparr>
               in (Done [Emit All ''sync:history'' [JArr (globalHistory s2)]], s2))
         else (Done [Emit (Only sid) ''redo:empty'' []], s1))"

text \<open>\<open>socket.on("clear:board")\<close>, lines 106-112.\<close>

definition on_clear_board :: "string \<Rightarrow> server \<Rightarrow> outcome \<times> server" where
  "on_clear_board sid s =
     (let s' = s\<lparr>globalHistory := [], redoStack := []\<rparr>
      in (Done [Emit All ''sync:history'' [JArr (globalHistory s')]], s'))"

section \<open>The server without snapshots on commit (unnamed/part_001)\<close>

text \<open>\<open>socket.on("draw:end")\<close>, lines 35-39.\<close>

definition basic_on_draw_end :: "string \<Rightarrow> json \<Rightarrow> server \<Rightarrow> outcome \<times> server" where
  "basic_on_draw_end sid stroke s =
     (Done [Emit (Others sid) ''draw:end'' [stroke]],
      s\<lparr>globalHistory := push (globalHistory s) stroke, redoStack := []\<rparr>)"

text \<open>\<open>socket.on("undo")\<close>, lines 41-45.\<close>

definition basic_on_undo :: "string \<Rightarrow> server \<Rightarrow> outcome \<times> server" where
  "basic_on_undo sid s =
     (let (last, h) = pop (globalHistory s);
          s1 = s\<lparr>globalHistory := h\<rparr>;
          s2 = (if truthy last then s1\<lparr>redoStack := push (redoStack s1) last\<rparr> else s1)
      in (Done [Emit All ''sync:history'' [JArr (globalHistory s2)]], s2))"

text \<open>\<open>socket.on("redo")\<close>, lines 47-51.\<close>

definition basic_on_redo :: "string \<Rightarrow> server \<Rightarrow> outcome \<times> server" where
  "basic_on_redo sid s =
     (let (redo, r) = pop (redoStack s);
          s1 = s\<lparr>redoStack := r\<rparr>;
          s2 = (if truthy redo then s1\<lparr>globalHistory := push (globalHistory s1) redo\<rparr> else s1)
      in (Done [Emit All ''sync:history'' [JArr (globalHistory s2)]], s2))"

text \<open>\<open>socket.on("clear:board")\<close>, lines 53-57.\<close>

definition basic_on_clear_board :: "string \<Rightarrow> server \<Rightarrow> outcome \<times> server" where
  "basic_on_clear_board sid s =
     (Done [Emit All ''sync:history'' [JArr []]], s\<lparr>globalHistory := [], redoStack := []\<rparr>)"

section \<open>The client's canvas layers (client/canvas.js)\<close>

text \<open>
  The client reads the fields of what it receives, so it is modelled on decoded values.
  An entry of a snapshot is a stroke object or \<open>null\<close>; a stroke may lack its points
  (\<open>!pts\<close> in \<open>_drawSmooth\<close>) or its id (\<open>stroke.id && ...\<close> in \<open>commitRemoteStroke\<close>);
  an element of its points is a point object with numeric coordinates or \<open>null\<close>
  (\<open>NullPoint\<close>), on which the read of \<open>.x\<close> throws. Points that are no array, and
  coordinates, colours or sizes of another JSON type, are outside the model.
  Coordinates are reals: the rounding and the overflow of JavaScript's doubles in
  \<open>(a + b) / 2\<close> are not modelled.
\<close>

datatype point = Point (px: real) (py: real) | NullPoint

record stroke =
  stroke_id :: "string option"
  points :: "point list option"
  stroke_color :: string
  stroke_size :: real

text \<open>
  A 2D context is what the code can observe and change of it: the stroke settings, the
  current path, and the paths painted onto the layer since it was last cleared, in
  painting order. The browser's colour parser belongs to the context: \<open>parses c col\<close>
  says whether the context takes the string \<open>col\<close> for a colour.
\<close>

datatype path_cmd = MoveTo real real | QuadraticCurveTo real real real real

datatype ink = Ink (ink_path: "path_cmd list") (ink_style: string) (ink_width: real)
  (ink_cap: string) (ink_join: string)

record ctx =
  strokeStyle :: string
  lineWidth :: real
  lineCap :: string
  lineJoin :: string
  path :: "path_cmd list"
  painted :: "ink list"
  parses :: "string \<Rightarrow> bool"

text \<open>
  The assignments \<open>ctx.strokeStyle = color\<close> and \<open>ctx.lineWidth = size\<close>: a context
  ignores a string that is no colour and a width that is not positive.
\<close>

definition set_strokeStyle :: "string \<Rightarrow> ctx \<Rightarrow> ctx" where
  "set_strokeStyle col c = (if parses c col then c\<lparr>strokeStyle := col\<rparr> else c)"

definition set_lineWidth :: "real \<Rightarrow> ctx \<Rightarrow> ctx" where
  "set_lineWidth w c = (if 0 < w then c\<lparr>lineWidth := w\<rparr> else c)"

text \<open>
  \<open>clearRect(0, 0, width, height)\<close> wipes the whole layer and leaves settings and
  current path alone.
\<close>

definition clearRect :: "ctx \<Rightarrow> ctx" where
  "clearRect c = c\<lparr>painted := []\<rparr>"

definition beginPath :: "ctx \<Rightarrow> ctx" where
  "beginPath c = c\<lparr>path := []\<rparr>"

definition moveTo :: "real \<Rightarrow> real \<Rightarrow> ctx \<Rightarrow> ctx" where
  "moveTo a b c = c\<lparr>path := path c @ [MoveTo a b]\<rparr>"

definition quadraticCurveTo :: "real \<Rightarrow> real \<Rightarrow> real \<Rightarrow> real \<Rightarrow> ctx \<Rightarrow> ctx" where
  "quadraticCurveTo cpx cpy a b c = c\<lparr>path := path c @ [QuadraticCurveTo cpx cpy a b]\<rparr>"

text \<open>
  \<open>ctx.stroke()\<close> paints the current path. A path that holds a starting point and no
  segment has nothing to paint: the layer stays as it is.
\<close>

fun has_segment :: "path_cmd list \<Rightarrow> bool" where
  "has_segment [] = False"
| "has_segment (MoveTo a b # cs) = has_segment cs"
| "has_segment (QuadraticCurveTo cpx cpy a b # cs) = True"

definition stroke_path :: "ctx \<Rightarrow> ctx" where
  "stroke_path c =
     (if has_segment (path c)
      then c\<lparr>painted := painted c
               @ [Ink (path c) (strokeStyle c) (lineWidth c) (lineCap c) (lineJoin c)]\<rparr>
      else c)"

text \<open>
  The loop of \<open>_drawSmooth\<close>, lines 175-179:
  \<open>for (let i = 1; i < pts.length - 1; i++)\<close>. It runs under the guard
  \<open>pts.length >= 2\<close>, so \<open>pts.length - 1\<close> is not negative and both \<open>pts[i]\<close> and
  \<open>pts[i + 1]\<close> are in range. Reading \<open>.x\<close> of a \<open>null\<close> element throws; the result
  carries the exception, if any, and the context as it is at that moment.
\<close>

function smooth_loop :: "point list \<Rightarrow> nat \<Rightarrow> ctx \<Rightarrow> js_error option \<times> ctx" where
  "smooth_loop pts i c =
     (if i < length pts - 1
      then (if pts ! i = NullPoint \<or> pts ! (i + 1) = NullPoint then (Some TypeError, c)
            else (let midX = (px (pts ! i) + px (pts ! (i + 1))) / 2;
                      midY = (py (pts ! i) + py (pts ! (i + 1))) / 2
                  in smooth_loop pts (i + 1)
                       (quadraticCurveTo (px (pts ! i)) (py (pts ! i)) midX midY c)))
      else (None, c))"
  by pat_completeness auto
termination
  by (relation "measure (\<lambda>(pts, i, c). length pts - 1 - i)") auto

text \<open>\<open>_drawSmooth(ctx, pts, color, size)\<close>, lines 168-181.\<close>

definition drawSmooth ::
  "ctx \<Rightarrow> point list option \<Rightarrow> string \<Rightarrow> real \<Rightarrow> js_error option \<times> ctx" where
  "drawSmooth c pts col sz =
     (case pts of
        None \<Rightarrow> (None, c)
      | Some ps \<Rightarrow>
          if length ps < 2 then (None, c)
          else (let c1 = set_strokeStyle col c;
                    c2 = set_lineWidth sz c1;
                    c3 = c2\<lparr>lineCap := ''round'', lineJoin := ''round''\<rparr>;
                    c4 = beginPath c3
                in if ps ! 0 = NullPoint then (Some TypeError, c4)
                   else (let c5 = moveTo (px (ps ! 0)) (py (ps ! 0)) c4;
                             (e, c6) = smooth_loop ps 1 c5
                         in (case e of
                               Some err \<Rightarrow> (Some err, c6)
                             | None \<Rightarrow> (None, stroke_path c6)))))"

section \<open>The client's reconciler (client/canvas.js)\<close>

text \<open>
  An exception that leaves a handler of the client ends that handler only: the browser
  reports it and goes on with the state as it is. \<open>uncaught\<close> lists these exceptions.
\<close>

record client =
  strokes :: "stroke list"
  currentStroke :: "point list"
  isDrawing :: bool
  localTempId :: "string option"
  brush_color :: string
  brush_size :: real
  remoteStrokes :: "string \<rightharpoonup> stroke"
  hctx :: ctx
  rctx :: ctx
  lctx :: ctx
  uncaught :: "js_error list"

text \<open>
  A 2D context as the browser hands it out (the defaults of the Canvas API), and the
  board as the constructor leaves it, lines 24-37. The colour parser of this context
  knows the hexadecimal notations only (a browser knows more: names, functional
  notations); it serves the concrete examples, which use strings on which it agrees with
  a browser. The theorems hold for every context and so for every parser.
\<close>

definition hex_digit :: "char \<Rightarrow> bool" where
  "hex_digit ch = (ch \<in> set ''0123456789abcdefABCDEF'')"

definition hex_colour :: "string \<Rightarrow> bool" where
  "hex_colour s =
     (case s of
        [] \<Rightarrow> False
      | ch # ds \<Rightarrow> ch = CHR ''#'' \<and> length ds \<in> {3, 4, 6, 8} \<and> list_all hex_digit ds)"

definition fresh_ctx :: ctx where
  "fresh_ctx = \<lparr>strokeStyle = ''#000000'', lineWidth = 1, lineCap = ''butt'',
     lineJoin = ''miter'', path = [], painted = [], parses = hex_colour\<rparr>"

definition new_board :: client where
  "new_board = \<lparr>strokes = [], currentStroke = [], isDrawing = False, localTempId = None,
     brush_color = ''#10A37F'', brush_size = 10, remoteStrokes = Map.empty,
     hctx = fresh_ctx, rctx = fresh_ctx, lctx = fresh_ctx, uncaught = []\<rparr>"

text \<open>
  \<open>_start(e)\<close>, lines 101-116. \<open>p\<close> is the pointer position \<open>_getPos(e)\<close>, \<open>uuid\<close> what
  \<open>crypto.randomUUID()\<close> returns. The result carries the stroke handed to
  \<open>socket.emitStart\<close>.
\<close>

definition client_start :: "string \<Rightarrow> point \<Rightarrow> client \<Rightarrow> stroke \<times> client" where
  "client_start uuid p b =
     (let b1 = b\<lparr>isDrawing := True\<rparr>;
          b2 = b1\<lparr>currentStroke := [p]\<rparr>;
          startStroke = \<lparr>stroke_id = Some uuid, points = Some [p],
                         stroke_color = brush_color b2, stroke_size = brush_size b2\<rparr>
      in (startStroke, b2\<lparr>localTempId := stroke_id startStroke\<rparr>))"

text \<open>
  \<open>_end()\<close>, lines 141-165. \<open>uuid\<close> is what \<open>crypto.randomUUID()\<close> would return. The
  result carries the stroke handed to \<open>socket.emitEnd\<close>, if any. When the renderer
  throws, the stroke is on the mirror already and nothing after line 156 happens.
\<close>

definition client_end :: "string \<Rightarrow> client \<Rightarrow> stroke option \<times> client" where
  "client_end uuid b =
     (if \<not> isDrawing b then (None, b)
      else (let b1 = b\<lparr>isDrawing := False\<rparr>;
                st = \<lparr>stroke_id = Some (case localTempId b1 of
                                          None \<Rightarrow> uuid
                                        | Some t \<Rightarrow> if t = [] then uuid else t),
                      points = Some (currentStroke b1),
                      stroke_color = brush_color b1,
                      stroke_size = brush_size b1\<rparr>;
                b2 = b1\<lparr>strokes := strokes b1 @ [st]\<rparr>;
                (e, h) = drawSmooth (hctx b2) (points st) (stroke_color st) (stroke_size st);
                b3 = b2\<lparr>hctx := h\<rparr>
            in (case e of
                  Some err \<Rightarrow> (None, b3\<lparr>uncaught := uncaught b3 @ [err]\<rparr>)
                | None \<Rightarrow>
                    (let b4 = b3\<lparr>currentStroke := []\<rparr>;
                         b5 = b4\<lparr>lctx := clearRect (lctx b4)\<rparr>
                     in (Some st, b5\<lparr>localTempId := None\<rparr>)))))"

text \<open>
  The keys every plain object inherits from \<open>Object.prototype\<close>: the read
  \<open>this.remoteStrokes[stroke.id]\<close> finds a truthy value at them although no preview was
  stored there, and \<open>delete\<close> of an inherited key removes nothing.
\<close>

definition inherited_keys :: "string list" where
  "inherited_keys =
     [''constructor'', ''hasOwnProperty'', ''isPrototypeOf'', ''propertyIsEnumerable'',
      ''toLocaleString'', ''toString'', ''valueOf'', ''__proto__'', ''__defineGetter__'',
      ''__defineSetter__'', ''__lookupGetter__'', ''__lookupSetter__'']"

text \<open>
  \<open>commitRemoteStroke(stroke)\<close>, lines 221-237. \<open>None\<close> is a falsy payload. When the
  renderer throws, the stroke is on the mirror already and the preview stays.
\<close>

definition commitRemoteStroke :: "stroke option \<Rightarrow> client \<Rightarrow> client" where
  "commitRemoteStroke stroke b =
     (case stroke of
        None \<Rightarrow> b
      | Some st \<Rightarrow>
          (let b1 = b\<lparr>strokes := strokes b @ [st]\<rparr>;
               (e, h) = drawSmooth (hctx b1) (points st) (stroke_color st) (stroke_size st);
               b2 = b1\<lparr>hctx := h\<rparr>
           in (case e of
                 Some err \<Rightarrow> b2\<lparr>uncaught := uncaught b2 @ [err]\<rparr>
               | None \<Rightarrow>
                   (case stroke_id st of
                      None \<Rightarrow> b2
                    | Some i \<Rightarrow>
                        if i \<noteq> [] \<and> (i \<in> set inherited_keys \<or> remoteStrokes b2 i \<noteq> None)
                        then b2\<lparr>remoteStrokes := (remoteStrokes b2)(i := None),
                               rctx := clearRect (rctx b2)\<rparr>
                        else b2))))"

text \<open>
  The loop of \<open>syncHistory\<close>, lines 251-253: \<open>for (const s of this.strokes)\<close>. An entry
  \<open>None\<close> is \<open>null\<close>: the read of \<open>s.points\<close> throws.
\<close>

fun paint_strokes :: "stroke option list \<Rightarrow> ctx \<Rightarrow> js_error option \<times> ctx" where
  "paint_strokes [] c = (None, c)"
| "paint_strokes (None # ss) c = (Some TypeError, c)"
| "paint_strokes (Some s # ss) c =
     (case drawSmooth c (points s) (stroke_color s) (stroke_size s) of
        (Some err, c') \<Rightarrow> (Some err, c')
      | (None, c') \<Rightarrow> paint_strokes ss c')"

text \<open>
  \<open>syncHistory(history)\<close>, lines 241-262. \<open>None\<close> is an argument that is not an array.
  The code writes the mirror first, then clears and repaints the history layer, then
  clears the two other layers. When the loop throws, the handler ends there: the mirror
  holds the snapshot, the history layer is cleared and partly repainted, and the two
  other layers are as they were. The mirror of the model cannot hold \<open>null\<close>, so in that
  case the result is the exception together with the three layers; when the loop ends,
  no entry was \<open>null\<close> and the result is the new state.
\<close>

record abort =
  thrown :: js_error
  history_layer :: ctx
  remote_layer :: ctx
  live_layer :: ctx

definition syncHistory :: "stroke option list option \<Rightarrow> client \<Rightarrow> abort + client" where
  "syncHistory history b =
     (let h = (case history of None \<Rightarrow> [] | Some xs \<Rightarrow> xs);
          (e, c) = paint_strokes h (clearRect (hctx b))
      in (case e of
            Some err \<Rightarrow>
              Inl \<lparr>thrown = err, history_layer = c, remote_layer = rctx b, live_layer = lctx b\<rparr>
          | None \<Rightarrow>
              (let b1 = b\<lparr>strokes := map the h\<rparr>;
                   b3 = b1\<lparr>hctx := c\<rparr>;
                   b4 = b3\<lparr>rctx := clearRect (rctx b3)\<rparr>
               in Inr (b4\<lparr>lctx := clearRect (lctx b4)\<rparr>))))"

section \<open>Operation logs\<close>

text \<open>
  The four structural requests. The server's event loop runs one handler to its end
  before it takes the next event, so a log of requests, each with the connection that
  sent it, is applied in order.
\<close>

datatype op = Commit json | Undo | Redo | Clear

fun apply_op :: "string \<Rightarrow> op \<Rightarrow> server \<Rightarrow> outcome \<times> server" where
  "apply_op sid (Commit v) s = on_draw_end sid v s"
| "apply_op sid Undo s = on_undo sid s"
| "apply_op sid Redo s = on_redo sid s"
| "apply_op sid Clear s = on_clear_board sid s"

fun run :: "(string \<times> op) list \<Rightarrow> server \<Rightarrow> server" where
  "run [] s = s"
| "run ((sid, e) # es) s = run es (snd (apply_op sid e s))"

fun basic_apply_op :: "string \<Rightarrow> op \<Rightarrow> server \<Rightarrow> outcome \<times> server" where
  "basic_apply_op sid (Commit v) s = basic_on_draw_end sid v s"
| "basic_apply_op sid Undo s = basic_on_undo sid s"
| "basic_apply_op sid Redo s = basic_on_redo sid s"
| "basic_apply_op sid Clear s = basic_on_clear_board sid s"

fun basic_run :: "(string \<times> op) list \<Rightarrow> server \<Rightarrow> server" where
  "basic_run [] s = s"
| "basic_run ((sid, e) # es) s = basic_run es (snd (basic_apply_op sid e s))"

text \<open>
  A log commits only new strokes when no commit carries a value that the history holds
  at that moment.
\<close>

fun new_commits :: "(string \<times> op) list \<Rightarrow> server \<Rightarrow> bool" where
  "new_commits [] s = True"
| "new_commits ((sid, e) # es) s =
     ((case e of Commit v \<Rightarrow> v \<notin> set (globalHistory s) | _ \<Rightarrow> True)
      \<and> new_commits es (snd (apply_op sid e s)))"

section \<open>Auxiliary definitions for the proofs\<close>

text \<open>The two stacks of a server state, apart from its users.\<close>

definition stacks :: "server \<Rightarrow> json list \<times> json list" where
  "stacks s = (globalHistory s, redoStack s)"

text \<open>
  The renderer in the words of its description: the segment for the interior point \<open>i\<close>
  is a quadratic curve with that point as control point, ending at the midpoint between
  it and the next point; the path of a point sequence starts at its first point and has
  one such segment for each interior point.
\<close>

definition midpoint_segment :: "point list \<Rightarrow> nat \<Rightarrow> path_cmd" where
  "midpoint_segment ps i =
     QuadraticCurveTo (px (ps ! i)) (py (ps ! i))
       ((px (ps ! i) + px (ps ! (i + 1))) / 2) ((py (ps ! i) + py (ps ! (i + 1))) / 2)"

definition smooth_path :: "point list \<Rightarrow> path_cmd list" where
  "smooth_path ps =
     MoveTo (px (ps ! 0)) (py (ps ! 0)) # map (midpoint_segment ps) [1..<length ps - 1]"

text \<open>
  A stroke on which the renderer reads no \<open>null\<close> point (it reads none of fewer than
  two points, the first of two, all of three or more); a stroke the renderer does not skip (two
  points or more: it sets the context up); a stroke that leaves a curve on the layer
  (three points or more); and the curve such a stroke leaves when the context takes its
  colour and width.
\<close>

definition null_free :: "stroke \<Rightarrow> bool" where
  "null_free s =
     (case points s of
        None \<Rightarrow> True
      | Some ps \<Rightarrow>
          length ps < 2 \<or> (length ps = 2 \<and> ps ! 0 \<noteq> NullPoint) \<or> NullPoint \<notin> set ps)"

definition touched :: "stroke \<Rightarrow> bool" where
  "touched s = (case points s of None \<Rightarrow> False | Some ps \<Rightarrow> 2 \<le> length ps)"

definition drawn :: "stroke \<Rightarrow> bool" where
  "drawn s = (case points s of None \<Rightarrow> False | Some ps \<Rightarrow> 3 \<le> length ps)"

definition own_ink :: "stroke \<Rightarrow> ink list" where
  "own_ink s =
     (if drawn s
      then [Ink (smooth_path (the (points s))) (stroke_color s) (stroke_size s) ''round'' ''round'']
      else [])"

text \<open>What the loop of \<open>syncHistory\<close> makes of a layer when no entry is \<open>null\<close>.\<close>

definition repaint :: "stroke list \<Rightarrow> ctx \<Rightarrow> ctx" where
  "repaint ss c = snd (paint_strokes (map Some ss) c)"

text \<open>A context without its layer: the stroke settings, the current path, the parser.\<close>

definition settings :: "ctx \<Rightarrow> ctx" where
  "settings c = c\<lparr>painted := []\<rparr>"

declare smooth_loop.simps [simp del]

section \<open>The handlers, case by case\<close>

lemma pop_Nil: "pop [] = (JNull, [])"
  by (simp add: pop_def)

lemma pop_nonempty: "xs \<noteq> [] \<Longrightarrow> pop xs = (last xs, butlast xs)"
  by (simp add: pop_def)

lemma truthy_object: "truthy (JObj kvs)"
  by simp

lemma on_undo_truthy:
  "globalHistory s \<noteq> [] \<Longrightarrow> truthy (last (globalHistory s)) \<Longrightarrow>
   on_undo sid s =
     (Done [Emit All ''sync:history'' [JArr (butlast (globalHistory s))]],
      s\<lparr>globalHistory := butlast (globalHistory s),
        redoStack := redoStack s @ [last (globalHistory s)]\<rparr>)"
  by (simp add: on_undo_def pop_nonempty push_def)

lemma on_undo_empty:
  "globalHistory s = [] \<Longrightarrow> on_undo sid s = (Done [Emit (Only sid) ''undo:empty'' []], s)"
  by (simp add: on_undo_def pop_Nil)

text \<open>
  A falsy last entry (\<open>null\<close>, \<open>false\<close>, \<open>0\<close>, the empty string) is popped and then taken
  for the \<open>undefined\<close> of an empty array: it is not pushed onto the redo stack, nothing is
  broadcast, and the requester is told that there was nothing to undo.
\<close>

lemma on_undo_falsy:
  "globalHistory s \<noteq> [] \<Longrightarrow> \<not> truthy (last (globalHistory s)) \<Longrightarrow>
   on_undo sid s =
     (Done [Emit (Only sid) ''undo:empty'' []], s\<lparr>globalHistory := butlast (globalHistory s)\<rparr>)"
  by (simp add: on_undo_def pop_nonempty push_def)

lemma basic_on_undo_truthy:
  "globalHistory s \<noteq> [] \<Longrightarrow> truthy (last (globalHistory s)) \<Longrightarrow>
   basic_on_undo sid s =
     (Done [Emit All ''sync:history'' [JArr (butlast (globalHistory s))]],
      s\<lparr>globalHistory := butlast (globalHistory s),
        redoStack := redoStack s @ [last (globalHistory s)]\<rparr>)"
  by (simp add: basic_on_undo_def pop_nonempty push_def)

lemma basic_on_undo_empty:
  "globalHistory s = [] \<Longrightarrow>
   basic_on_undo sid s = (Done [Emit All ''sync:history'' [JArr []]], s)"
  by (simp add: basic_on_undo_def pop_Nil)

lemma on_redo_empty:
  "redoStack s = [] \<Longrightarrow> on_redo sid s = (Done [Emit (Only sid) ''redo:empty'' []], s)"
  by (simp add: on_redo_def pop_Nil)

lemma on_redo_truthy:
  "redoStack s \<noteq> [] \<Longrightarrow> truthy (last (redoStack s)) \<Longrightarrow>
   on_redo sid s =
     (Done [Emit All ''sync:history'' [JArr (globalHistory s @ [last (redoStack s)])]],
      s\<lparr>redoStack := butlast (redoStack s),
        globalHistory := globalHistory s @ [last (redoStack s)]\<rparr>)"
  by (simp add: on_redo_def pop_nonempty push_def)

lemma on_redo_falsy:
  "redoStack s \<noteq> [] \<Longrightarrow> \<not> truthy (last (redoStack s)) \<Longrightarrow>
   on_redo sid s =
     (Done [Emit (Only sid) ''redo:empty'' []], s\<lparr>redoStack := butlast (redoStack s)\<rparr>)"
  by (simp add: on_redo_def pop_nonempty push_def)

lemma on_draw_end_eq:
  "on_draw_end sid v s =
     (Done [Emit All ''draw:end'' [v], Emit All ''sync:history'' [JArr (globalHistory s @ [v])]],
      s\<lparr>globalHistory := globalHistory s @ [v], redoStack := []\<rparr>)"
  by (simp add: on_draw_end_def push_def Let_def)

lemma on_clear_board_eq:
  "on_clear_board sid s =
     (Done [Emit All ''sync:history'' [JArr []]], s\<lparr>globalHistory := [], redoStack := []\<rparr>)"
  by (simp add: on_clear_board_def Let_def)

text \<open>
  \<open>cursor:move\<close> from a connection without an entry in \<open>users\<close> returns at once; from a
  known user with a \<open>null\<close> or absent position it throws before anything is emitted,
  and the process ends; with any other position it emits and returns.
\<close>

lemma cursor_move_unknown:
  "users s sid = None \<Longrightarrow> on_cursor_move sid pos s = (Done [], Some s)"
  by (simp add: on_cursor_move_def)

lemma cursor_move_null:
  "users s sid = Some u \<Longrightarrow> on_cursor_move sid JNull s = (Threw TypeError, None)"
  by (simp add: on_cursor_move_def)

lemma js_get_not_null: "pos \<noteq> JNull \<Longrightarrow> \<exists>v. js_get pos k = Inr v"
  by (cases pos) simp_all

lemma cursor_move_returns:
  assumes "pos \<noteq> JNull"
  shows "snd (on_cursor_move sid pos s) = Some s"
proof -
  from js_get_not_null [OF assms] obtain vx vy
    where "js_get pos ''x'' = Inr vx" and "js_get pos ''y'' = Inr vy" by blast
  then show ?thesis by (simp add: on_cursor_move_def split: option.splits)
qed

lemma preview_handlers_return:
  "snd (on_draw_start sid data s) = s" "snd (on_draw_move sid data s) = s"
  by (simp_all add: on_draw_start_def on_draw_move_def)

section \<open>Logs: the stacks depend on the requests only\<close>

lemma apply_op_stacks:
  "stacks s = stacks t \<Longrightarrow> stacks (snd (apply_op a e s)) = stacks (snd (apply_op b e t))"
  by (cases e) (simp_all add: stacks_def on_draw_end_def on_undo_def on_redo_def
      on_clear_board_def Let_def split: prod.splits)

lemma basic_apply_op_stacks:
  "stacks s = stacks t \<Longrightarrow>
   stacks (snd (basic_apply_op a e s)) = stacks (snd (basic_apply_op b e t))"
  by (cases e) (simp_all add: stacks_def basic_on_draw_end_def basic_on_undo_def
      basic_on_redo_def basic_on_clear_board_def Let_def split: prod.splits)

lemma run_stacks:
  "stacks s = stacks t \<Longrightarrow> map snd r1 = map snd r2 \<Longrightarrow> stacks (run r1 s) = stacks (run r2 t)"
proof (induction r1 arbitrary: r2 s t)
  case Nil
  then show ?case by simp
next
  case (Cons x r1)
  then obtain y r2' where r2: "r2 = y # r2'" by (cases r2) auto
  obtain a e where x: "x = (a, e)" by (cases x)
  obtain b e' where y: "y = (b, e')" by (cases y)
  from Cons.prems r2 x y have e: "e' = e" and tl: "map snd r1 = map snd r2'" by auto
  have "stacks (snd (apply_op a e s)) = stacks (snd (apply_op b e t))"
    using Cons.prems(1) by (rule apply_op_stacks)
  from Cons.IH [OF this tl] show ?case by (simp add: r2 x y e)
qed

lemma basic_run_stacks:
  "stacks s = stacks t \<Longrightarrow> map snd r1 = map snd r2 \<Longrightarrow>
   stacks (basic_run r1 s) = stacks (basic_run r2 t)"
proof (induction r1 arbitrary: r2 s t)
  case Nil
  then show ?case by simp
next
  case (Cons x r1)
  then obtain y r2' where r2: "r2 = y # r2'" by (cases r2) auto
  obtain a e where x: "x = (a, e)" by (cases x)
  obtain b e' where y: "y = (b, e')" by (cases y)
  from Cons.prems r2 x y have e: "e' = e" and tl: "map snd r1 = map snd r2'" by auto
  have "stacks (snd (basic_apply_op a e s)) = stacks (snd (basic_apply_op b e t))"
    using Cons.prems(1) by (rule basic_apply_op_stacks)
  from Cons.IH [OF this tl] show ?case by (simp add: r2 x y e)
qed

section \<open>Logs: no entry twice\<close>

lemma distinct_butlast_last:
  assumes "xs \<noteq> []" and "distinct (xs @ ys)"
  shows "distinct (butlast xs @ ys @ [last xs])"
proof -
  from assms(1) obtain zs z where "xs = zs @ [z]" by (metis rev_exhaust)
  with assms(2) show ?thesis by auto
qed

lemma distinct_move_back:
  assumes "ys \<noteq> []" and "distinct (xs @ ys)"
  shows "distinct ((xs @ [last ys]) @ butlast ys)"
proof -
  from assms(1) obtain zs z where "ys = zs @ [z]" by (metis rev_exhaust)
  with assms(2) show ?thesis by auto
qed

lemma distinct_drop_left: "distinct (xs @ ys) \<Longrightarrow> distinct (butlast xs @ ys)"
  by (cases xs rule: rev_cases) auto

lemma distinct_drop_right: "distinct (xs @ ys) \<Longrightarrow> distinct (xs @ butlast ys)"
  by (cases ys rule: rev_cases) auto

lemma apply_op_distinct:
  assumes "distinct (globalHistory s @ redoStack s)"
    and "case e of Commit v \<Rightarrow> v \<notin> set (globalHistory s) | _ \<Rightarrow> True"
  shows "distinct (globalHistory (snd (apply_op a e s)) @ redoStack (snd (apply_op a e s)))"
proof (cases e)
  case (Commit v)
  with assms show ?thesis by (simp add: on_draw_end_eq)
next
  case Undo
  show ?thesis
  proof (cases "globalHistory s = []")
    case True
    with assms Undo show ?thesis by (simp add: on_undo_empty)
  next
    case False
    show ?thesis
    proof (cases "truthy (last (globalHistory s))")
      case True
      with False assms(1) Undo distinct_butlast_last [of "globalHistory s" "redoStack s"]
      show ?thesis by (simp add: on_undo_truthy)
    next
      case falsy: False
      with False assms(1) Undo distinct_drop_left [of "globalHistory s" "redoStack s"]
      show ?thesis by (simp add: on_undo_falsy)
    qed
  qed
next
  case Redo
  show ?thesis
  proof (cases "redoStack s = []")
    case True
    with assms Redo show ?thesis by (simp add: on_redo_empty)
  next
    case False
    show ?thesis
    proof (cases "truthy (last (redoStack s))")
      case True
      with False assms(1) Redo distinct_move_back [of "redoStack s" "globalHistory s"]
      show ?thesis by (simp add: on_redo_truthy)
    next
      case falsy: False
      with False assms(1) Redo distinct_drop_right [of "globalHistory s" "redoStack s"]
      show ?thesis by (simp add: on_redo_falsy)
    qed
  qed
next
  case Clear
  then show ?thesis by (simp add: on_clear_board_eq)
qed

lemma run_distinct:
  "distinct (globalHistory s @ redoStack s) \<Longrightarrow> new_commits r s \<Longrightarrow>
   distinct (globalHistory (run r s) @ redoStack (run r s))"
proof (induction r arbitrary: s)
  case Nil
  then show ?case by simp
next
  case (Cons x r)
  obtain a e where x: "x = (a, e)" by (cases x)
  from Cons.prems x have c: "case e of Commit v \<Rightarrow> v \<notin> set (globalHistory s) | _ \<Rightarrow> True"
    and n: "new_commits r (snd (apply_op a e s))" by simp_all
  from Cons.IH [OF apply_op_distinct [OF Cons.prems(1) c] n] show ?case by (simp add: x)
qed

lemma apply_op_prefix:
  "prefix (globalHistory (snd (apply_op a e s))) (globalHistory s)
   \<or> prefix (globalHistory s) (globalHistory (snd (apply_op a e s)))"
proof (cases e)
  case (Commit v)
  then show ?thesis by (simp add: on_draw_end_eq)
next
  case Undo
  then show ?thesis
    by (cases "globalHistory s = []"; cases "truthy (last (globalHistory s))")
       (simp_all add: on_undo_empty on_undo_truthy on_undo_falsy prefixeq_butlast)
next
  case Redo
  then show ?thesis
    by (cases "redoStack s = []"; cases "truthy (last (redoStack s))")
       (simp_all add: on_redo_empty on_redo_truthy on_redo_falsy)
next
  case Clear
  then show ?thesis by (simp add: on_clear_board_eq)
qed

lemma strokes_commitRemoteStroke:
  "strokes (commitRemoteStroke (Some st) b) = strokes b @ [st]"
  by (simp add: commitRemoteStroke_def Let_def split: option.splits prod.splits)

lemma strokes_client_end:
  "isDrawing b \<Longrightarrow> length (strokes (snd (client_end uuid b))) = Suc (length (strokes b))"
  by (simp add: client_end_def Let_def split: option.splits prod.splits)

section \<open>The renderer in closed form\<close>

lemma smooth_loop_path:
  "NullPoint \<notin> set ps \<Longrightarrow>
   smooth_loop ps i c
     = (None, c\<lparr>path := path c @ map (midpoint_segment ps) [i..<length ps - 1]\<rparr>)"
proof (induction ps i c rule: smooth_loop.induct)
  case (1 pts i c)
  show ?case
  proof (cases "i < length pts - 1")
    case True
    then have "pts ! i \<in> set pts" and "pts ! (i + 1) \<in> set pts" by simp_all
    with "1.prems" have nn: "\<not> (pts ! i = NullPoint \<or> pts ! (i + 1) = NullPoint)" by metis
    have "[i..<length pts - 1] = i # [i + 1..<length pts - 1]"
      using True by (simp add: upt_conv_Cons)
    with True nn "1.IH" [OF True nn refl refl "1.prems"] show ?thesis
      by (subst smooth_loop.simps) (simp add: Let_def quadraticCurveTo_def midpoint_segment_def)
  next
    case False
    then show ?thesis by (subst smooth_loop.simps) simp
  qed
qed

lemma smooth_loop_done: "length ps \<le> Suc i \<Longrightarrow> smooth_loop ps i c = (None, c)"
  by (subst smooth_loop.simps) auto

lemma has_segment_map: "has_segment (map (midpoint_segment ps) xs) = (xs \<noteq> [])"
  by (cases xs) (simp_all add: midpoint_segment_def)

lemma has_segment_smooth_path: "has_segment (smooth_path ps) = (3 \<le> length ps)"
  by (auto simp add: smooth_path_def has_segment_map)

lemma drawSmooth_None: "drawSmooth c None col sz = (None, c)"
  by (simp add: drawSmooth_def)

lemma drawSmooth_short: "length ps < 2 \<Longrightarrow> drawSmooth c (Some ps) col sz = (None, c)"
  by (simp add: drawSmooth_def)

lemma drawSmooth_two:
  "length ps = 2 \<Longrightarrow> ps ! 0 \<noteq> NullPoint \<Longrightarrow>
   drawSmooth c (Some ps) col sz =
     (None, c\<lparr>strokeStyle := if parses c col then col else strokeStyle c,
               lineWidth := if 0 < sz then sz else lineWidth c,
               lineCap := ''round'', lineJoin := ''round'',
               path := [MoveTo (px (ps ! 0)) (py (ps ! 0))]\<rparr>)"
  by (simp add: drawSmooth_def Let_def smooth_loop_done beginPath_def moveTo_def stroke_path_def
      set_strokeStyle_def set_lineWidth_def)

lemma drawSmooth_long:
  "2 \<le> length ps \<Longrightarrow> NullPoint \<notin> set ps \<Longrightarrow>
   drawSmooth c (Some ps) col sz =
     (None, c\<lparr>strokeStyle := if parses c col then col else strokeStyle c,
               lineWidth := if 0 < sz then sz else lineWidth c,
               lineCap := ''round'', lineJoin := ''round'',
               path := smooth_path ps,
               painted := painted c @
                 (if 3 \<le> length ps
                  then [Ink (smooth_path ps) (if parses c col then col else strokeStyle c)
                          (if 0 < sz then sz else lineWidth c) ''round'' ''round'']
                  else [])\<rparr>)"
proof -
  assume len: "2 \<le> length ps" and nf: "NullPoint \<notin> set ps"
  from len have "ps ! 0 \<in> set ps" by (cases ps) auto
  with nf have p0: "ps ! 0 \<noteq> NullPoint" by metis
  from len p0 show ?thesis
    by (simp add: drawSmooth_def Let_def smooth_loop_path [OF nf] beginPath_def moveTo_def
        stroke_path_def set_strokeStyle_def set_lineWidth_def smooth_path_def has_segment_map)
qed

section \<open>Repainting a layer\<close>

lemma drawSmooth_stroke:
  assumes "null_free s"
  shows "drawSmooth c (points s) col sz =
     (None,
      if touched s
      then c\<lparr>strokeStyle := if parses c col then col else strokeStyle c,
             lineWidth := if 0 < sz then sz else lineWidth c,
             lineCap := ''round'', lineJoin := ''round'',
             path := smooth_path (the (points s)),
             painted := painted c @
               (if drawn s
                then [Ink (smooth_path (the (points s)))
                        (if parses c col then col else strokeStyle c)
                        (if 0 < sz then sz else lineWidth c) ''round'' ''round'']
                else [])\<rparr>
      else c)"
proof (cases "points s")
  case None
  then show ?thesis by (simp add: touched_def drawSmooth_None)
next
  case (Some ps)
  show ?thesis
  proof (cases "length ps < 2")
    case True
    with Some show ?thesis by (simp add: touched_def drawSmooth_short)
  next
    case long: False
    show ?thesis
    proof (cases "length ps = 2")
      case True
      with assms Some have "ps ! 0 \<noteq> NullPoint"
        by (cases ps) (auto simp add: null_free_def)
      from drawSmooth_two [OF True this] Some True show ?thesis
        by (simp add: touched_def drawn_def smooth_path_def)
    next
      case False
      with long assms Some have nf: "NullPoint \<notin> set ps" and len: "2 \<le> length ps"
        by (simp_all add: null_free_def)
      from drawSmooth_long [OF len nf] Some len show ?thesis
        by (simp add: touched_def drawn_def)
    qed
  qed
qed

lemma repaint_Nil: "repaint [] c = c"
  by (simp add: repaint_def)

lemma paint_strokes_Cons:
  "null_free s \<Longrightarrow>
   paint_strokes (Some s # es) c
     = paint_strokes es (snd (drawSmooth c (points s) (stroke_color s) (stroke_size s)))"
  by (simp add: drawSmooth_stroke)

lemma paint_strokes_returns:
  "\<forall>s\<in>set ss. null_free s \<Longrightarrow> fst (paint_strokes (map Some ss) c) = None"
proof (induction ss arbitrary: c)
  case Nil
  then show ?case by simp
next
  case (Cons s ss)
  from Cons.prems have nf: "null_free s" and rest: "\<forall>t\<in>set ss. null_free t" by simp_all
  show ?case by (simp only: list.map paint_strokes_Cons [OF nf] Cons.IH [OF rest])
qed

lemma repaint_Cons:
  "null_free s \<Longrightarrow>
   repaint (s # ss) c
     = repaint ss (snd (drawSmooth c (points s) (stroke_color s) (stroke_size s)))"
  by (simp only: repaint_def list.map paint_strokes_Cons)

lemma repaint_append:
  "\<forall>s\<in>set xs. null_free s \<Longrightarrow> repaint (xs @ ys) c = repaint ys (repaint xs c)"
proof (induction xs arbitrary: c)
  case Nil
  then show ?case by (simp add: repaint_Nil)
next
  case (Cons x xs)
  then show ?case by (simp add: repaint_Cons)
qed

lemma parses_repaint: "\<forall>s\<in>set ss. null_free s \<Longrightarrow> parses (repaint ss c) = parses c"
proof (induction ss arbitrary: c)
  case Nil
  then show ?case by (simp add: repaint_Nil)
next
  case (Cons s ss)
  then show ?case by (simp add: repaint_Cons drawSmooth_stroke)
qed

lemma paths_repaint:
  "\<forall>s\<in>set ss. null_free s \<Longrightarrow>
   map ink_path (painted (repaint ss c))
     = map ink_path (painted c) @ map (\<lambda>s. smooth_path (the (points s))) (filter drawn ss)"
proof (induction ss arbitrary: c)
  case Nil
  then show ?case by (simp add: repaint_Nil)
next
  case (Cons s ss)
  have "drawn s \<Longrightarrow> touched s" by (simp add: drawn_def touched_def split: option.splits)
  with Cons show ?case by (auto simp add: repaint_Cons drawSmooth_stroke)
qed

lemma painted_repaint:
  "\<forall>s\<in>set ss. null_free s \<and> (touched s \<longrightarrow> parses c (stroke_color s) \<and> 0 < stroke_size s) \<Longrightarrow>
   painted (repaint ss c) = painted c @ concat (map own_ink ss)"
proof (induction ss arbitrary: c)
  case Nil
  then show ?case by (simp add: repaint_Nil)
next
  case (Cons s ss)
  have dt: "drawn s \<Longrightarrow> touched s" by (simp add: drawn_def touched_def split: option.splits)
  let ?c = "snd (drawSmooth c (points s) (stroke_color s) (stroke_size s))"
  from Cons.prems have nf: "null_free s" by simp
  have p: "parses ?c = parses c" by (simp add: drawSmooth_stroke [OF nf])
  from Cons.prems p have
    "\<forall>t\<in>set ss. null_free t \<and> (touched t \<longrightarrow> parses ?c (stroke_color t) \<and> 0 < stroke_size t)"
    by simp
  from Cons.IH [OF this] Cons.prems dt show ?case
    by (auto simp add: repaint_Cons [OF nf] drawSmooth_stroke [OF nf] own_ink_def)
qed

lemma ctx_eqI: "settings a = settings b \<Longrightarrow> painted a = painted b \<Longrightarrow> a = b"
  by (cases a, cases b) (simp add: settings_def)

lemma settings_drawSmooth_cong:
  assumes "null_free s" and "settings c = settings c'"
  shows "settings (snd (drawSmooth c (points s) col sz))
       = settings (snd (drawSmooth c' (points s) col sz))"
proof -
  from assms(2) have "strokeStyle c = strokeStyle c'" "lineWidth c = lineWidth c'"
    "parses c = parses c'" "c\<lparr>painted := []\<rparr> = c'\<lparr>painted := []\<rparr>"
    by (cases c, cases c', simp add: settings_def)+
  then show ?thesis
    by (cases c, cases c') (simp add: drawSmooth_stroke [OF assms(1)] settings_def)
qed

lemma settings_repaint_cong:
  "\<forall>s\<in>set ss. null_free s \<Longrightarrow> settings c = settings c' \<Longrightarrow>
   settings (repaint ss c) = settings (repaint ss c')"
proof (induction ss arbitrary: c c')
  case Nil
  then show ?case by (simp add: repaint_Nil)
next
  case (Cons s ss)
  from Cons.prems have nf: "null_free s" and rest: "\<forall>t\<in>set ss. null_free t" by simp_all
  from Cons.IH [OF rest settings_drawSmooth_cong [OF nf Cons.prems(2)]]
  show ?case by (simp add: repaint_Cons [OF nf])
qed

lemma settings_drawSmooth_valid:
  assumes "null_free s" and "touched s" and "parses d col" and "0 < sz"
  shows "settings (snd (drawSmooth d (points s) col sz)) =
     \<lparr>strokeStyle = col, lineWidth = sz, lineCap = ''round'', lineJoin = ''round'',
      path = smooth_path (the (points s)), painted = [], parses = parses d\<rparr>"
  using assms(2-4) by (cases d) (simp add: drawSmooth_stroke [OF assms(1)] settings_def)

lemma settings_repaint_twice:
  "\<forall>s\<in>set ss. null_free s \<and> (touched s \<longrightarrow> parses c (stroke_color s) \<and> 0 < stroke_size s) \<Longrightarrow>
   settings (repaint ss (repaint ss c)) = settings (repaint ss c)"
proof (induction ss arbitrary: c rule: rev_induct)
  case Nil
  then show ?case by (simp add: repaint_Nil)
next
  case (snoc s ss)
  from snoc.prems have nfs: "\<forall>t\<in>set ss. null_free t" and nf: "null_free s"
    and nfa: "\<forall>t\<in>set (ss @ [s]). null_free t" by simp_all
  have split: "\<And>d. repaint (ss @ [s]) d = repaint [s] (repaint ss d)"
    using nfs by (rule repaint_append)
  have one: "\<And>d. repaint [s] d = snd (drawSmooth d (points s) (stroke_color s) (stroke_size s))"
    by (simp add: repaint_Cons [OF nf] repaint_Nil)
  show ?case
  proof (cases "touched s")
    case True
    with snoc.prems have ok: "parses c (stroke_color s)" "0 < stroke_size s" by simp_all
    have p1: "parses (repaint ss c) = parses c" using nfs by (rule parses_repaint)
    have p2: "parses (repaint ss (repaint (ss @ [s]) c)) = parses c"
      using parses_repaint [OF nfs, of "repaint (ss @ [s]) c"] parses_repaint [OF nfa, of c]
      by simp
    have l: "settings (repaint (ss @ [s]) (repaint (ss @ [s]) c)) =
        \<lparr>strokeStyle = stroke_color s, lineWidth = stroke_size s, lineCap = ''round'',
         lineJoin = ''round'', path = smooth_path (the (points s)), painted = [],
         parses = parses c\<rparr>"
      using settings_drawSmooth_valid [OF nf True, of "repaint ss (repaint (ss @ [s]) c)"
          "stroke_color s" "stroke_size s"] ok p2
      by (simp add: split [of "repaint (ss @ [s]) c"] one)
    have r: "settings (repaint (ss @ [s]) c) =
        \<lparr>strokeStyle = stroke_color s, lineWidth = stroke_size s, lineCap = ''round'',
         lineJoin = ''round'', path = smooth_path (the (points s)), painted = [],
         parses = parses c\<rparr>"
      using settings_drawSmooth_valid [OF nf True, of "repaint ss c"
          "stroke_color s" "stroke_size s"] ok p1
      by (simp add: split [of c] one)
    from l r show ?thesis by simp
  next
    case False
    then have same: "\<And>d. repaint (ss @ [s]) d = repaint ss d"
      by (simp add: split one drawSmooth_stroke [OF nf])
    from snoc.prems have
      "\<forall>t\<in>set ss. null_free t \<and> (touched t \<longrightarrow> parses c (stroke_color t) \<and> 0 < stroke_size t)"
      by simp
    from snoc.IH [OF this] same show ?thesis by simp
  qed
qed

lemma settings_clearRect: "settings (clearRect c) = settings c"
  by (simp add: settings_def clearRect_def)

lemma clearRect_twice: "clearRect (clearRect c) = clearRect c"
  by (simp add: clearRect_def)

lemma repaint_twice:
  assumes "\<forall>s\<in>set ss. null_free s \<and> (touched s \<longrightarrow> parses c (stroke_color s) \<and> 0 < stroke_size s)"
  shows "repaint ss (clearRect (repaint ss (clearRect c))) = repaint ss (clearRect c)"
proof (rule ctx_eqI)
  from assms have nf: "\<forall>s\<in>set ss. null_free s" by simp
  have pc: "parses (clearRect c) = parses c" by (simp add: clearRect_def)
  from assms pc have v: "\<forall>s\<in>set ss. null_free s
      \<and> (touched s \<longrightarrow> parses (clearRect c) (stroke_color s) \<and> 0 < stroke_size s)"
    by simp
  have "parses (clearRect (repaint ss (clearRect c))) = parses c"
    using parses_repaint [OF nf, of "clearRect c"] by (simp add: clearRect_def)
  with assms have v2: "\<forall>s\<in>set ss. null_free s
      \<and> (touched s \<longrightarrow> parses (clearRect (repaint ss (clearRect c))) (stroke_color s)
            \<and> 0 < stroke_size s)"
    by simp
  have "settings (repaint ss (clearRect (repaint ss (clearRect c))))
      = settings (repaint ss (repaint ss (clearRect c)))"
    using nf by (rule settings_repaint_cong) (simp add: settings_clearRect)
  then show "settings (repaint ss (clearRect (repaint ss (clearRect c))))
      = settings (repaint ss (clearRect c))"
    by (simp add: settings_repaint_twice [OF v])
  show "painted (repaint ss (clearRect (repaint ss (clearRect c))))
      = painted (repaint ss (clearRect c))"
    unfolding painted_repaint [OF v] painted_repaint [OF v2] by (simp add: clearRect_def)
qed

lemma syncHistory_eq:
  assumes "\<forall>s\<in>set ss. null_free s"
  shows "syncHistory (Some (map Some ss)) b =
     Inr (b\<lparr>strokes := ss,
            hctx := repaint ss (clearRect (hctx b)),
            rctx := clearRect (rctx b),
            lctx := clearRect (lctx b)\<rparr>)"
proof -
  obtain e c where pc: "paint_strokes (map Some ss) (clearRect (hctx b)) = (e, c)"
    by (cases "paint_strokes (map Some ss) (clearRect (hctx b))")
  with paint_strokes_returns [OF assms, of "clearRect (hctx b)"] have e: "e = None" by simp
  from pc have c: "c = repaint ss (clearRect (hctx b))" by (simp add: repaint_def)
  have "map the (map Some ss) = ss" by (simp add: comp_def)
  with pc e c show ?thesis by (simp add: syncHistory_def Let_def)
qed

lemma syncHistory_not_array: "syncHistory None b = syncHistory (Some []) b"
  by (simp add: syncHistory_def)

lemma syncHistory_null_entry:
  "syncHistory (Some (None # es)) b =
     Inl \<lparr>thrown = TypeError, history_layer = clearRect (hctx b),
          remote_layer = rctx b, live_layer = lctx b\<rparr>"
  by (simp add: syncHistory_def)

section \<open>Undo\<close>

text \<open>
  C1 (as amended). For every undo request, on the server of part_002: if History is
  non-empty and its last entry is truthy (every stroke object is), the server pops the
  last entry, pushes it onto the redo stack and sends the new History snapshot as
  \<open>sync:history\<close> to all connections; if History is empty it sends \<open>undo:empty\<close> to the
  requesting connection only, broadcasts nothing and leaves both stacks as they are.
  The server of part_001 changes the stacks in the same way, but sends the resulting
  snapshot to all connections in either case and has no \<open>undo:empty\<close>.
\<close>

theorem undo_request:
  "(globalHistory s \<noteq> [] \<and> truthy (last (globalHistory s)) \<longrightarrow>
      on_undo sid s =
        (Done [Emit All ''sync:history'' [JArr (butlast (globalHistory s))]],
         s\<lparr>globalHistory := butlast (globalHistory s),
           redoStack := redoStack s @ [last (globalHistory s)]\<rparr>)
      \<and> basic_on_undo sid s =
        (Done [Emit All ''sync:history'' [JArr (butlast (globalHistory s))]],
         s\<lparr>globalHistory := butlast (globalHistory s),
           redoStack := redoStack s @ [last (globalHistory s)]\<rparr>))
   \<and> (globalHistory s = [] \<longrightarrow>
      on_undo sid s = (Done [Emit (Only sid) ''undo:empty'' []], s)
      \<and> basic_on_undo sid s = (Done [Emit All ''sync:history'' [JArr []]], s))
   \<and> receivers conns All = conns \<and> receivers conns (Only sid) = {sid}"
  by (simp add: on_undo_truthy on_undo_empty basic_on_undo_truthy basic_on_undo_empty)

text \<open>An undo with two entries in History, and an undo on the empty History.\<close>

theorem undo_request_witness:
  "on_undo ''a'' \<lparr>users = Map.empty,
       globalHistory = [JStr ''s1'', JObj [(''id'', JStr ''s2'')]], redoStack = []\<rparr>
     = (Done [Emit All ''sync:history'' [JArr [JStr ''s1'']]],
        \<lparr>users = Map.empty, globalHistory = [JStr ''s1''],
          redoStack = [JObj [(''id'', JStr ''s2'')]]\<rparr>)
   \<and> on_undo ''a'' \<lparr>users = Map.empty, globalHistory = [], redoStack = [JStr ''s1'']\<rparr>
     = (Done [Emit (Only ''a'') ''undo:empty'' []],
        \<lparr>users = Map.empty, globalHistory = [], redoStack = [JStr ''s1'']\<rparr>)"
  using undo_request [of "\<lparr>users = Map.empty,
      globalHistory = [JStr ''s1'', JObj [(''id'', JStr ''s2'')]], redoStack = []\<rparr>" "''a''" "{}"]
    undo_request [of "\<lparr>users = Map.empty, globalHistory = [], redoStack = [JStr ''s1'']\<rparr>"
      "''a''" "{}"]
  by simp

text \<open>
  The claim as stated fails twice. On the empty History the server of part_001 sends a
  snapshot to every connection instead of telling the requester alone. On the History
  that holds the single entry \<open>null\<close> the server of part_002 removes the entry, leaves
  the redo stack empty and broadcasts nothing.
\<close>

theorem undo_request_counterexample:
  "fst (basic_on_undo ''a'' \<lparr>users = Map.empty, globalHistory = [], redoStack = []\<rparr>)
     = Done [Emit All ''sync:history'' [JArr []]]
   \<and> receivers {''a'', ''b''} All = {''a'', ''b''}
   \<and> on_undo ''a'' \<lparr>users = Map.empty, globalHistory = [JNull], redoStack = []\<rparr>
     = (Done [Emit (Only ''a'') ''undo:empty'' []], \<lparr>users = Map.empty, globalHistory = [], redoStack = []\<rparr>)"
  by (simp add: basic_on_undo_def on_undo_def pop_def)

section \<open>Commit\<close>

text \<open>
  C2 (as amended). For every \<open>draw:end\<close> event, whatever its payload, the server of
  part_002 appends the stroke to History, empties the redo stack, and then sends the same
  stroke as \<open>draw:end\<close> to all connections, the sender included, followed by a
  \<open>sync:history\<close> with the whole History to all connections. The server of part_001
  changes the stacks in the same way, but sends the stroke to all connections except the
  sender and sends no \<open>sync:history\<close>.
\<close>

theorem draw_end_request:
  "on_draw_end sid stroke s =
     (Done [Emit All ''draw:end'' [stroke],
            Emit All ''sync:history'' [JArr (globalHistory s @ [stroke])]],
      s\<lparr>globalHistory := globalHistory s @ [stroke], redoStack := []\<rparr>)
   \<and> basic_on_draw_end sid stroke s =
     (Done [Emit (Others sid) ''draw:end'' [stroke]],
      s\<lparr>globalHistory := globalHistory s @ [stroke], redoStack := []\<rparr>)
   \<and> receivers conns All = conns
   \<and> receivers conns (Others sid) = conns - {sid}"
  by (simp add: on_draw_end_eq basic_on_draw_end_def push_def)

text \<open>
  On the server of part_001 a commit by connection \<open>a\<close> emits one message, which does not
  reach \<open>a\<close>, and no snapshot.
\<close>

theorem draw_end_counterexample:
  "fst (basic_on_draw_end ''a'' (JObj [(''id'', JStr ''s1'')]) \<lparr>users = Map.empty, globalHistory = [], redoStack = []\<rparr>)
     = Done [Emit (Others ''a'') ''draw:end'' [JObj [(''id'', JStr ''s1'')]]]
   \<and> ''a'' \<notin> receivers {''a'', ''b''} (Others ''a'')"
  by (simp add: basic_on_draw_end_def)

text \<open>
  C3. Every commit leaves the redo stack empty. So after an undo and then a commit, a
  redo request is answered with \<open>redo:empty\<close> to the requester alone and changes nothing:
  History stays what the commit made of it, the undone stroke is not put back.
\<close>

theorem commit_clears_redo:
  "redoStack (snd (on_draw_end b stroke s)) = []
   \<and> on_redo c (snd (on_draw_end b stroke (snd (on_undo a s))))
      = (Done [Emit (Only c) ''redo:empty'' []], snd (on_draw_end b stroke (snd (on_undo a s))))
   \<and> globalHistory (snd (on_redo c (snd (on_draw_end b stroke (snd (on_undo a s))))))
      = globalHistory (snd (on_undo a s)) @ [stroke]"
  by (simp add: on_draw_end_eq on_redo_empty)

section \<open>Replay\<close>

text \<open>
  C4. Two runs of the same sequence of commit, undo, redo and clear requests, both from
  empty stacks, end with the same History, on either server: the final History is a
  function of the requests alone, whoever sent them and whoever is connected.
\<close>

theorem replay_deterministic:
  assumes "globalHistory s = []" "redoStack s = []" "globalHistory t = []" "redoStack t = []"
    and "map snd r1 = map snd r2"
  shows "globalHistory (run r1 s) = globalHistory (run r2 t)
       \<and> globalHistory (basic_run r1 s) = globalHistory (basic_run r2 t)"
proof -
  have st: "stacks s = stacks t" using assms by (simp add: stacks_def)
  from run_stacks [OF st assms(5)] basic_run_stacks [OF st assms(5)]
  show ?thesis by (simp add: stacks_def)
qed

text \<open>The same five requests, sent by different connections to differently peopled servers.\<close>

theorem replay_deterministic_witness:
  "globalHistory (run [(''a'', Commit (JStr ''s1'')), (''b'', Commit (JStr ''s2'')),
       (''a'', Undo), (''b'', Redo), (''a'', Undo)] \<lparr>users = Map.empty, globalHistory = [], redoStack = []\<rparr>)
   = globalHistory (run [(''c'', Commit (JStr ''s1'')), (''c'', Commit (JStr ''s2'')),
       (''d'', Undo), (''d'', Redo), (''c'', Undo)]
       \<lparr>users = [''c'' \<mapsto> \<lparr>user_name = ''User1234'', user_color = ''#FFD700''\<rparr>],
         globalHistory = [], redoStack = []\<rparr>)"
  using replay_deterministic [of "\<lparr>users = Map.empty, globalHistory = [], redoStack = []\<rparr>"
      "\<lparr>users = [''c'' \<mapsto> \<lparr>user_name = ''User1234'', user_color = ''#FFD700''\<rparr>],
        globalHistory = [], redoStack = []\<rparr>"
      "[(''a'', Commit (JStr ''s1'')), (''b'', Commit (JStr ''s2'')),
        (''a'', Undo), (''b'', Redo), (''a'', Undo)]"
      "[(''c'', Commit (JStr ''s1'')), (''c'', Commit (JStr ''s2'')),
        (''d'', Undo), (''d'', Redo), (''c'', Undo)]"]
  by simp

section \<open>Undo, then redo\<close>

text \<open>
  C5. For every server state in which History is non-empty, undo immediately followed by
  redo should restore History. The code misses this when the last entry is falsy: after
  a commit with the payload \<open>null\<close> History is non-empty; the undo handler pops the
  entry, takes the popped \<open>null\<close> for the \<open>undefined\<close> of an empty array, pushes and
  broadcasts nothing and answers \<open>undo:empty\<close> (under the comment "nothing to undo");
  the redo that follows finds an empty redo stack. History ends empty.
\<close>

theorem undo_redo_falsy_entry:
  "globalHistory (snd (on_draw_end ''a'' JNull \<lparr>users = Map.empty, globalHistory = [], redoStack = []\<rparr>)) = [JNull]
   \<and> on_undo ''a'' (snd (on_draw_end ''a'' JNull \<lparr>users = Map.empty, globalHistory = [], redoStack = []\<rparr>))
      = (Done [Emit (Only ''a'') ''undo:empty'' []], \<lparr>users = Map.empty, globalHistory = [], redoStack = []\<rparr>)
   \<and> globalHistory (snd (on_redo ''a'' (snd (on_undo ''a'' (snd (on_draw_end ''a'' JNull \<lparr>users = Map.empty, globalHistory = [], redoStack = []\<rparr>))))))
     = []"
  by (simp add: on_draw_end_eq on_undo_falsy on_redo_empty)

text \<open>
  Where the last entry is truthy, as every stroke object is, the round trip restores
  both stacks.
\<close>

lemma undo_redo_truthy_entry:
  assumes "globalHistory s \<noteq> []" and "truthy (last (globalHistory s))"
  shows "globalHistory (snd (on_redo b (snd (on_undo a s)))) = globalHistory s
       \<and> redoStack (snd (on_redo b (snd (on_undo a s)))) = redoStack s"
  using assms by (simp add: on_undo_truthy on_redo_truthy)

section \<open>History entries\<close>

text \<open>
  C6 (as amended). In every state reached from empty stacks by commit, undo, redo and
  clear requests in which each commit carried a stroke that History did not hold at that
  moment, each stroke appears at most once in History. Every request leaves the entries
  that stay in History as they were, in value and position: of the History before and
  the History after, one is a prefix of the other. On the client, \<open>commitRemoteStroke\<close>
  appends the stroke to the local mirror, so the mirror holds each stroke at most once
  afterwards provided it did before and did not hold the new stroke.
\<close>

theorem history_entries:
  "(globalHistory s = [] \<and> redoStack s = [] \<and> new_commits r s \<longrightarrow>
      distinct (globalHistory (run r s)))
   \<and> (prefix (globalHistory (snd (apply_op sid e s))) (globalHistory s)
      \<or> prefix (globalHistory s) (globalHistory (snd (apply_op sid e s))))
   \<and> strokes (commitRemoteStroke (Some st) b) = strokes b @ [st]
   \<and> (distinct (strokes b) \<and> st \<notin> set (strokes b) \<longrightarrow>
      distinct (strokes (commitRemoteStroke (Some st) b)))"
proof -
  have "distinct (globalHistory (run r s))"
    if "globalHistory s = []" "redoStack s = []" "new_commits r s"
  proof -
    from that have "distinct (globalHistory s @ redoStack s)" by simp
    from run_distinct [OF this that(3)] show ?thesis by simp
  qed
  then show ?thesis
    using apply_op_prefix [of sid e s] by (simp add: strokes_commitRemoteStroke)
qed

text \<open>
  A log that commits \<open>s2\<close> a second time after it was undone, and a first remote commit
  on a new board.
\<close>

theorem history_entries_witness:
  "distinct (globalHistory (run [(''a'', Commit (JStr ''s1'')), (''b'', Commit (JStr ''s2'')),
       (''a'', Undo), (''b'', Redo), (''a'', Undo), (''a'', Commit (JStr ''s2''))] \<lparr>users = Map.empty, globalHistory = [], redoStack = []\<rparr>))
   \<and> distinct (strokes (commitRemoteStroke
        (Some \<lparr>stroke_id = Some ''s1'', points = Some [Point 0 0, Point 1 1],
               stroke_color = ''#10A37F'', stroke_size = 10\<rparr>)
        new_board))"
  using history_entries [of "\<lparr>users = Map.empty, globalHistory = [], redoStack = []\<rparr>"
      "[(''a'', Commit (JStr ''s1'')), (''b'', Commit (JStr ''s2'')),
        (''a'', Undo), (''b'', Redo), (''a'', Undo), (''a'', Commit (JStr ''s2''))]" "''a''" Undo
      "\<lparr>stroke_id = Some ''s1'', points = Some [Point 0 0, Point 1 1],
        stroke_color = ''#10A37F'', stroke_size = 10\<rparr>"
      new_board]
  by (simp add: on_draw_end_eq on_undo_truthy on_redo_truthy new_board_def)

text \<open>
  The server checks no payload against History: the same stroke committed twice is in
  History twice. And the client that drew a stroke pushes it onto its mirror in \<open>_end\<close>
  and again when the server of part_002 sends its \<open>draw:end\<close> back to it, so its mirror
  holds the stroke twice until the next snapshot.
\<close>

theorem history_entries_counterexample:
  "\<not> distinct (globalHistory (run [(''a'', Commit (JObj [(''id'', JStr ''s1'')])),
        (''a'', Commit (JObj [(''id'', JStr ''s1'')]))] \<lparr>users = Map.empty, globalHistory = [], redoStack = []\<rparr>))
   \<and> \<not> distinct (strokes
        (commitRemoteStroke
           (fst (client_end ''u2'' (snd (client_start ''u1'' (Point 3 4) new_board))))
           (snd (client_end ''u2'' (snd (client_start ''u1'' (Point 3 4) new_board))))))"
  by (simp add: on_draw_end_eq client_start_def client_end_def commitRemoteStroke_def
      new_board_def Let_def drawSmooth_def)

section \<open>Snapshots on the client\<close>

text \<open>
  C7 (as amended). An argument that is not an array is treated as the empty snapshot.
  For a snapshot whose entries are stroke objects on which the renderer reads no \<open>null\<close>
  point,
  \<open>syncHistory\<close> returns, replaces the local mirror by the snapshot, clears the
  remote-preview and the local-live layer, and repaints the history layer from scratch:
  afterwards that layer holds, in snapshot order, the curves of the strokes with three
  points or more and nothing else. If moreover the history context takes the colour of
  every stroke with two points or more for a colour, and the width of each is positive,
  every curve is painted in its stroke's own colour and width, and applying the same
  snapshot a second time changes nothing in the client's state, layers included.
\<close>

theorem syncHistory_idempotent:
  "syncHistory None b = syncHistory (Some []) b
   \<and> ((\<forall>s\<in>set ss. null_free s) \<longrightarrow>
        (\<exists>b'. syncHistory (Some (map Some ss)) b = Inr b'
           \<and> strokes b' = ss
           \<and> painted (rctx b') = []
           \<and> painted (lctx b') = []
           \<and> map ink_path (painted (hctx b'))
               = map (\<lambda>s. smooth_path (the (points s))) (filter drawn ss)
           \<and> ((\<forall>s\<in>set ss. touched s \<longrightarrow> parses (hctx b) (stroke_color s) \<and> 0 < stroke_size s)
                \<longrightarrow> syncHistory (Some (map Some ss)) b' = Inr b'
                    \<and> painted (hctx b') = concat (map own_ink ss))))"
proof -
  have "\<exists>b'. syncHistory (Some (map Some ss)) b = Inr b'
           \<and> strokes b' = ss
           \<and> painted (rctx b') = []
           \<and> painted (lctx b') = []
           \<and> map ink_path (painted (hctx b'))
               = map (\<lambda>s. smooth_path (the (points s))) (filter drawn ss)
           \<and> ((\<forall>s\<in>set ss. touched s \<longrightarrow> parses (hctx b) (stroke_color s) \<and> 0 < stroke_size s)
                \<longrightarrow> syncHistory (Some (map Some ss)) b' = Inr b'
                    \<and> painted (hctx b') = concat (map own_ink ss))"
    if nf: "\<forall>s\<in>set ss. null_free s"
  proof -
    let ?b = "b\<lparr>strokes := ss, hctx := repaint ss (clearRect (hctx b)),
                rctx := clearRect (rctx b), lctx := clearRect (lctx b)\<rparr>"
    have first: "syncHistory (Some (map Some ss)) b = Inr ?b"
      using nf by (rule syncHistory_eq)
    have layers: "painted (rctx ?b) = []" "painted (lctx ?b) = []"
      by (simp_all add: clearRect_def)
    have paths: "map ink_path (painted (hctx ?b))
        = map (\<lambda>s. smooth_path (the (points s))) (filter drawn ss)"
      using paths_repaint [OF nf, of "clearRect (hctx b)"] by (simp add: clearRect_def)
    have again: "syncHistory (Some (map Some ss)) ?b = Inr ?b
        \<and> painted (hctx ?b) = concat (map own_ink ss)"
      if ok: "\<forall>s\<in>set ss. touched s \<longrightarrow> parses (hctx b) (stroke_color s) \<and> 0 < stroke_size s"
    proof -
      from nf ok have v: "\<forall>s\<in>set ss. null_free s
          \<and> (touched s \<longrightarrow> parses (hctx b) (stroke_color s) \<and> 0 < stroke_size s)" by simp
      then have v': "\<forall>s\<in>set ss. null_free s
          \<and> (touched s \<longrightarrow> parses (clearRect (hctx b)) (stroke_color s) \<and> 0 < stroke_size s)"
        by (simp add: clearRect_def)
      have "syncHistory (Some (map Some ss)) ?b = Inr ?b"
        by (simp add: syncHistory_eq [OF nf] repaint_twice [OF v] clearRect_twice)
      moreover have "painted (hctx ?b) = concat (map own_ink ss)"
        using painted_repaint [OF v'] by (simp add: clearRect_def)
      ultimately show ?thesis by simp
    qed
    from first layers paths again show ?thesis by (intro exI [of _ ?b]) simp
  qed
  then show ?thesis by (simp add: syncHistory_not_array)
qed

text \<open>
  A snapshot of a curve of three points and a single point, applied to a new board and
  then to the result.
\<close>

theorem syncHistory_idempotent_witness:
  "\<not> isl (syncHistory
       (Some [Some \<lparr>stroke_id = Some ''s1'',
                     points = Some [Point 0 0, Point 2 4, Point 6 8],
                     stroke_color = ''#FF0000'', stroke_size = 4\<rparr>,
              Some \<lparr>stroke_id = Some ''s2'', points = Some [Point 1 1],
                     stroke_color = ''red'', stroke_size = 0\<rparr>])
       new_board)
   \<and> syncHistory
       (Some [Some \<lparr>stroke_id = Some ''s1'',
                     points = Some [Point 0 0, Point 2 4, Point 6 8],
                     stroke_color = ''#FF0000'', stroke_size = 4\<rparr>,
              Some \<lparr>stroke_id = Some ''s2'', points = Some [Point 1 1],
                     stroke_color = ''red'', stroke_size = 0\<rparr>])
       (projr (syncHistory
          (Some [Some \<lparr>stroke_id = Some ''s1'',
                        points = Some [Point 0 0, Point 2 4, Point 6 8],
                        stroke_color = ''#FF0000'', stroke_size = 4\<rparr>,
                 Some \<lparr>stroke_id = Some ''s2'', points = Some [Point 1 1],
                        stroke_color = ''red'', stroke_size = 0\<rparr>])
          new_board))
     = syncHistory
       (Some [Some \<lparr>stroke_id = Some ''s1'',
                     points = Some [Point 0 0, Point 2 4, Point 6 8],
                     stroke_color = ''#FF0000'', stroke_size = 4\<rparr>,
              Some \<lparr>stroke_id = Some ''s2'', points = Some [Point 1 1],
                     stroke_color = ''red'', stroke_size = 0\<rparr>])
       new_board
   \<and> painted (hctx (projr (syncHistory
          (Some [Some \<lparr>stroke_id = Some ''s1'',
                        points = Some [Point 0 0, Point 2 4, Point 6 8],
                        stroke_color = ''#FF0000'', stroke_size = 4\<rparr>,
                 Some \<lparr>stroke_id = Some ''s2'', points = Some [Point 1 1],
                        stroke_color = ''red'', stroke_size = 0\<rparr>])
          new_board)))
     = [Ink [MoveTo 0 0, QuadraticCurveTo 2 4 4 6] ''#FF0000'' 4 ''round'' ''round'']"
proof -
  let ?s1 = "\<lparr>stroke_id = Some ''s1'', points = Some [Point 0 0, Point 2 4, Point 6 8],
              stroke_color = ''#FF0000'', stroke_size = 4\<rparr>"
  let ?s2 = "\<lparr>stroke_id = Some ''s2'', points = Some [Point 1 1],
              stroke_color = ''red'', stroke_size = 0\<rparr>"
  have nf: "\<forall>s\<in>set [?s1, ?s2]. null_free s" by (simp add: null_free_def)
  have ok: "\<forall>s\<in>set [?s1, ?s2]. touched s
      \<longrightarrow> parses (hctx new_board) (stroke_color s) \<and> 0 < stroke_size s"
    by (simp add: touched_def new_board_def fresh_ctx_def hex_colour_def hex_digit_def)
  have ink: "concat (map own_ink [?s1, ?s2])
      = [Ink [MoveTo 0 0, QuadraticCurveTo 2 4 4 6] ''#FF0000'' 4 ''round'' ''round'']"
    by (simp add: own_ink_def drawn_def smooth_path_def midpoint_segment_def)
  from syncHistory_idempotent [of new_board "[?s1, ?s2]"] nf ok ink
  show ?thesis by auto
qed

text \<open>
  The claim as stated fails twice. A stroke whose colour the context does not take for a
  colour is painted in the colour the context holds at that moment: in the first
  application that is the colour the context had before, in the second the colour that
  the last stroke of the first application left. And on the snapshot that holds the
  single entry \<open>null\<close>, which the server of part_002 broadcasts after a commit with that
  payload, the loop throws before the two other layers are cleared: a preview on the
  remote layer stays.
\<close>

theorem syncHistory_idempotent_counterexample:
  "painted (hctx (projr (syncHistory
      (Some [Some \<lparr>stroke_id = Some ''s1'',
                    points = Some [Point 0 0, Point 2 4, Point 6 8],
                    stroke_color = ''not-a-colour'', stroke_size = 4\<rparr>,
             Some \<lparr>stroke_id = Some ''s2'',
                    points = Some [Point 1 1, Point 3 5, Point 7 9],
                    stroke_color = ''#FF0000'', stroke_size = 4\<rparr>])
      new_board)))
    = [Ink [MoveTo 0 0, QuadraticCurveTo 2 4 4 6] ''#000000'' 4 ''round'' ''round'',
       Ink [MoveTo 1 1, QuadraticCurveTo 3 5 5 7] ''#FF0000'' 4 ''round'' ''round'']
   \<and> painted (hctx (projr (syncHistory
      (Some [Some \<lparr>stroke_id = Some ''s1'',
                    points = Some [Point 0 0, Point 2 4, Point 6 8],
                    stroke_color = ''not-a-colour'', stroke_size = 4\<rparr>,
             Some \<lparr>stroke_id = Some ''s2'',
                    points = Some [Point 1 1, Point 3 5, Point 7 9],
                    stroke_color = ''#FF0000'', stroke_size = 4\<rparr>])
      (projr (syncHistory
         (Some [Some \<lparr>stroke_id = Some ''s1'',
                       points = Some [Point 0 0, Point 2 4, Point 6 8],
                       stroke_color = ''not-a-colour'', stroke_size = 4\<rparr>,
                Some \<lparr>stroke_id = Some ''s2'',
                       points = Some [Point 1 1, Point 3 5, Point 7 9],
                       stroke_color = ''#FF0000'', stroke_size = 4\<rparr>])
         new_board)))))
    = [Ink [MoveTo 0 0, QuadraticCurveTo 2 4 4 6] ''#FF0000'' 4 ''round'' ''round'',
       Ink [MoveTo 1 1, QuadraticCurveTo 3 5 5 7] ''#FF0000'' 4 ''round'' ''round'']
   \<and> syncHistory (Some [None])
       (new_board\<lparr>rctx := fresh_ctx\<lparr>painted :=
          [Ink [MoveTo 0 0, QuadraticCurveTo 2 4 4 6] ''#FF0000'' 4 ''round'' ''round'']\<rparr>\<rparr>)
     = Inl \<lparr>thrown = TypeError, history_layer = fresh_ctx,
            remote_layer = fresh_ctx\<lparr>painted :=
              [Ink [MoveTo 0 0, QuadraticCurveTo 2 4 4 6] ''#FF0000'' 4 ''round'' ''round'']\<rparr>,
            live_layer = fresh_ctx\<rparr>"
proof -
  let ?s1 = "\<lparr>stroke_id = Some ''s1'', points = Some [Point 0 0, Point 2 4, Point 6 8],
              stroke_color = ''not-a-colour'', stroke_size = 4\<rparr>"
  let ?s2 = "\<lparr>stroke_id = Some ''s2'', points = Some [Point 1 1, Point 3 5, Point 7 9],
              stroke_color = ''#FF0000'', stroke_size = 4\<rparr>"
  have nf: "\<forall>s\<in>set [?s1, ?s2]. null_free s" by (simp add: null_free_def)
  have nf1: "null_free ?s1" and nf2: "null_free ?s2" by (simp_all add: null_free_def)
  have p: "\<not> hex_colour ''not-a-colour''" "hex_colour ''#FF0000''"
    by (simp_all add: hex_colour_def hex_digit_def)
  have sp: "smooth_path [Point 0 0, Point 2 4, Point 6 8] = [MoveTo 0 0, QuadraticCurveTo 2 4 4 6]"
    "smooth_path [Point 1 1, Point 3 5, Point 7 9] = [MoveTo 1 1, QuadraticCurveTo 3 5 5 7]"
    by (simp_all add: smooth_path_def midpoint_segment_def)
  have rp: "\<And>c. repaint [?s1, ?s2] c
      = snd (drawSmooth (snd (drawSmooth c (points ?s1) (stroke_color ?s1) (stroke_size ?s1)))
          (points ?s2) (stroke_color ?s2) (stroke_size ?s2))"
    by (simp only: repaint_Cons [OF nf1] repaint_Cons [OF nf2] repaint_Nil)
  have e: "syncHistory (Some (map Some [?s1, ?s2])) = (\<lambda>b. Inr (b\<lparr>strokes := [?s1, ?s2],
            hctx := repaint [?s1, ?s2] (clearRect (hctx b)),
            rctx := clearRect (rctx b),
            lctx := clearRect (lctx b)\<rparr>))"
    using syncHistory_eq [OF nf] by (intro ext)
  have m: "Some [Some ?s1, Some ?s2] = Some (map Some [?s1, ?s2])" by simp
  show ?thesis
    unfolding m e rp
    by (simp add: drawSmooth_long p sp new_board_def fresh_ctx_def clearRect_def
        syncHistory_null_entry)
qed

section \<open>The smoothing renderer\<close>

text \<open>
  C8 (as amended). \<open>_drawSmooth\<close> renders nothing for point sequences of length 0, 1 or
  2: when the points are missing or fewer than two it leaves the context untouched, and
  for exactly two points it sets the context up and strokes a path that holds the first
  point alone, which leaves the layer as it is. For every sequence of three or more
  points it paints exactly one path: the path starts at the first point and has, for each
  interior point in order, one quadratic segment with that point as control point and the
  midpoint between it and the next point as end point; it is painted in the given colour
  and width where the context takes them. A path with a single starting point is one
  subpath, so the curve is continuous.
\<close>

theorem drawSmooth_curve:
  "drawSmooth c None col sz = (None, c)
   \<and> (length ps < 2 \<longrightarrow> drawSmooth c (Some ps) col sz = (None, c))
   \<and> (length ps = 2 \<and> ps ! 0 \<noteq> NullPoint \<longrightarrow>
        fst (drawSmooth c (Some ps) col sz) = None
        \<and> painted (snd (drawSmooth c (Some ps) col sz)) = painted c)
   \<and> (3 \<le> length ps \<and> NullPoint \<notin> set ps \<longrightarrow>
        fst (drawSmooth c (Some ps) col sz) = None
        \<and> painted (snd (drawSmooth c (Some ps) col sz))
          = painted c @ [Ink (MoveTo (px (ps ! 0)) (py (ps ! 0))
                              # map (midpoint_segment ps) [1..<length ps - 1])
                           (if parses c col then col else strokeStyle c)
                           (if 0 < sz then sz else lineWidth c) ''round'' ''round''])"
proof -
  have "fst (drawSmooth c (Some ps) col sz) = None
      \<and> painted (snd (drawSmooth c (Some ps) col sz)) = painted c"
    if "length ps = 2" "ps ! 0 \<noteq> NullPoint"
    using drawSmooth_two [OF that] by simp
  moreover have "fst (drawSmooth c (Some ps) col sz) = None
        \<and> painted (snd (drawSmooth c (Some ps) col sz))
          = painted c @ [Ink (MoveTo (px (ps ! 0)) (py (ps ! 0))
                              # map (midpoint_segment ps) [1..<length ps - 1])
                           (if parses c col then col else strokeStyle c)
                           (if 0 < sz then sz else lineWidth c) ''round'' ''round'']"
    if "3 \<le> length ps" "NullPoint \<notin> set ps"
  proof -
    from that(1) have "2 \<le> length ps" by simp
    from drawSmooth_long [OF this that(2)] that(1) show ?thesis
      by (simp add: smooth_path_def)
  qed
  ultimately show ?thesis
    by (simp add: drawSmooth_None drawSmooth_short)
qed

text \<open>One point, two points, and four points with their two interior segments.\<close>

theorem drawSmooth_curve_witness:
  "drawSmooth fresh_ctx (Some [Point 7 7]) ''#10A37F'' 10 = (None, fresh_ctx)
   \<and> painted (snd (drawSmooth fresh_ctx (Some [Point 0 0, Point 2 4]) ''#10A37F'' 10)) = []
   \<and> painted (snd (drawSmooth fresh_ctx (Some [Point 0 0, Point 2 4, Point 6 8, Point 10 0])
        ''#10A37F'' 10))
      = [Ink [MoveTo 0 0, QuadraticCurveTo 2 4 4 6, QuadraticCurveTo 6 8 8 4]
           ''#10A37F'' 10 ''round'' ''round'']"
  using drawSmooth_curve [of fresh_ctx "''#10A37F''" 10 "[Point 7 7]"]
    drawSmooth_curve [of fresh_ctx "''#10A37F''" 10 "[Point 0 0, Point 2 4]"]
    drawSmooth_curve [of fresh_ctx "''#10A37F''" 10
      "[Point 0 0, Point 2 4, Point 6 8, Point 10 0]"]
  by (simp add: midpoint_segment_def fresh_ctx_def upt_conv_Cons hex_colour_def hex_digit_def)

text \<open>
  With exactly two points the loop body never runs and the second point is never read:
  the path that is stroked holds the first point and no segment, and nothing is painted
  on the new layer.
\<close>

theorem drawSmooth_curve_counterexample:
  "drawSmooth fresh_ctx (Some [Point 0 0, Point 2 4]) ''#10A37F'' 10
     = (None, fresh_ctx\<lparr>strokeStyle := ''#10A37F'', lineWidth := 10, lineCap := ''round'',
                        lineJoin := ''round'', path := [MoveTo 0 0]\<rparr>)
   \<and> painted (snd (drawSmooth fresh_ctx (Some [Point 0 0, Point 2 4]) ''#10A37F'' 10)) = []"
  by (simp add: drawSmooth_two fresh_ctx_def hex_colour_def hex_digit_def)

section \<open>Clear\<close>

text \<open>
  C9. For every \<open>clear:board\<close> request, whatever History and the redo stack hold, both
  become empty and one \<open>sync:history\<close> message with the empty sequence goes to all
  connections, the one that asked included; on either server.
\<close>

theorem clear_board_request:
  "on_clear_board sid s =
     (Done [Emit All ''sync:history'' [JArr []]], s\<lparr>globalHistory := [], redoStack := []\<rparr>)
   \<and> basic_on_clear_board sid s =
     (Done [Emit All ''sync:history'' [JArr []]], s\<lparr>globalHistory := [], redoStack := []\<rparr>)
   \<and> receivers conns All = conns"
  by (simp add: on_clear_board_eq basic_on_clear_board_def)

section \<open>Previews and cursors\<close>

text \<open>
  C10. The handlers of \<open>draw:start\<close>, \<open>draw:move\<close> and \<open>cursor:move\<close> should leave
  History and the redo stack as they are for every payload. The code misses this for
  \<open>cursor:move\<close> with the payload \<open>null\<close> from a connected user: the handler guards
  against a missing user but not against a missing position, the read of \<open>pos.x\<close>
  throws, nothing catches the exception, and the process ends with History and redo
  stack in its memory.
\<close>

theorem cursor_move_null_position:
  "on_cursor_move ''a'' JNull
     \<lparr>users = [''a'' \<mapsto> \<lparr>user_name = ''User1234'', user_color = ''#FFD700''\<rparr>],
       globalHistory = [JObj [(''id'', JStr ''s1'')]], redoStack = [JObj [(''id'', JStr ''s2'')]]\<rparr>
   = (Threw TypeError, None)"
  by (simp add: on_cursor_move_def)

text \<open>
  In every other case the three handlers return and leave the whole state as it is:
  \<open>draw:start\<close> and \<open>draw:move\<close> for every payload, \<open>cursor:move\<close> for a connection
  without an entry in \<open>users\<close> and for every payload other than \<open>null\<close>.
\<close>

lemma preview_handlers_unchanged:
  "snd (on_draw_start sid data s) = s
   \<and> snd (on_draw_move sid data s) = s
   \<and> (users s sid = None \<or> data \<noteq> JNull \<longrightarrow> snd (on_cursor_move sid data s) = Some s)"
  using cursor_move_unknown [of s sid data] cursor_move_returns [of data sid s]
  by (auto simp add: preview_handlers_return)

end
